theory Spec2Isabelle
  imports Main
begin

section \<open>Bulk reconciliation of downtime reasons\<close>

text \<open>
  The repository merges a set of downtime reasons (free-text labels) for a set of assets
  into the table \<^verbatim>\<open>tbl_downtime_reason\<close>. The same logic is written twice: in the web
  handler \<^verbatim>\<open>process_upload\<close> of \<^verbatim>\<open>app.py\<close> and in the standalone importer
  \<^verbatim>\<open>bulk-upload-from-file.py\<close> (\<^verbatim>\<open>load_excel\<close>, \<^verbatim>\<open>expand_per_asset\<close>,
  \<^verbatim>\<open>upsert_data\<close>). Both are embedded here, over one model of the SQL statements
  they share.
\<close>

subsection \<open>Text\<close>

text \<open>
  A Python \<^verbatim>\<open>str\<close> is a list of characters, one \<^typ>\<open>char\<close> per code point (code
  points below 256). \<^verbatim>\<open>str.strip()\<close> without argument removes the whitespace at both
  ends; below 256 Python's whitespace is TAB, LF, VT, FF, CR, the separators
  0x1C to 0x1F, the space, NEL (0x85) and the no-break space (0xA0).
\<close>

definition is_space :: "char \<Rightarrow> bool" where
  "is_space c = (c \<in> set [CHR 0x09, CHR 0x0A, CHR 0x0B, CHR 0x0C, CHR 0x0D,
                           CHR 0x1C, CHR 0x1D, CHR 0x1E, CHR 0x1F, CHR 0x20,
                           CHR 0x85, CHR 0xA0])"

definition strip :: "string \<Rightarrow> string" where
  "strip s = rev (dropWhile is_space (rev (dropWhile is_space s)))"

subsection \<open>Data model\<close>

text \<open>
  A row of \<^verbatim>\<open>tbl_downtime_reason\<close> (alias \<^verbatim>\<open>m\<close> in the SQL) and a row of the
  temporary table \<^verbatim>\<open>temp_downtime_reason\<close> (alias \<^verbatim>\<open>t\<close>), which is also the shape
  of the dictionaries collected in \<^verbatim>\<open>records\<close>. A table is the list of its rows: SQL
  tables are bags, and the position in the list is the identity of a row.
  \<^verbatim>\<open>NOW()\<close> is the start time of the transaction, the same in every statement of it.
\<close>

type_synonym timestamp = nat

record assoc =
  m_name :: string
  m_asset_id :: int
  m_delete_status_id :: int
  m_created_at :: timestamp
  m_updated_at :: timestamp

record staged =
  t_name :: string
  t_asset_id :: int
  t_delete_status_id :: int

text \<open>
  The persistent store: the committed table, and the number of transactions the engine
  has been asked to open (what a recording stub of the store would count).
\<close>

record store =
  tbl :: "assoc list"
  invocations :: nat

text \<open>A storage-layer exception, with the index of the statement that raised it.\<close>

datatype error = StorageError nat

subsection \<open>The SQL statements\<close>

text \<open>The join condition \<^verbatim>\<open>m.name = t.name AND m.asset_id = t.asset_id\<close>.\<close>

definition matches :: "assoc \<Rightarrow> staged \<Rightarrow> bool" where
  "matches m t = (m_name m = t_name t \<and> m_asset_id m = t_asset_id t)"

text \<open>
  \<^verbatim>\<open>INSERT INTO tbl_downtime_reason (...) SELECT t.name, t.asset_id, t.delete_status_id,
  NOW(), NOW() FROM temp_downtime_reason t WHERE NOT EXISTS (SELECT 1 FROM tbl_downtime_reason m
  WHERE m.name = t.name AND m.asset_id = t.asset_id)\<close>.
  The subquery reads the table as it was when the statement started: a statement does not
  see the rows it inserts itself. So every staged row without a match at that moment is
  inserted, a staged row that occurs twice is inserted twice, and \<^verbatim>\<open>rowcount\<close> is the
  number of rows inserted.
\<close>

definition insert_new :: "timestamp \<Rightarrow> staged list \<Rightarrow> assoc list \<Rightarrow> assoc list \<times> nat" where
  "insert_new now temp tab =
     (let selected = filter (\<lambda>t. \<not> list_ex (\<lambda>m. matches m t) tab) temp;
          rows = map (\<lambda>t. \<lparr>m_name = t_name t, m_asset_id = t_asset_id t,
                            m_delete_status_id = t_delete_status_id t,
                            m_created_at = now, m_updated_at = now\<rparr>) selected
      in (tab @ rows, length rows))"

text \<open>
  \<^verbatim>\<open>UPDATE tbl_downtime_reason m SET delete_status_id = t.delete_status_id,
  updated_at = NOW() FROM temp_downtime_reason t WHERE m.name = t.name AND
  m.asset_id = t.asset_id\<close>.
  Every row of the table, as it is when this statement runs, that joins with a staged row is
  updated once, and \<^verbatim>\<open>rowcount\<close> is the number of table rows updated. When several
  staged rows join with one table row the database uses one of them; the model takes the
  first.
\<close>

definition update_existing :: "timestamp \<Rightarrow> staged list \<Rightarrow> assoc list \<Rightarrow> assoc list \<times> nat" where
  "update_existing now temp tab =
     (map (\<lambda>m. case find (matches m) temp of
                  None \<Rightarrow> m
                | Some t \<Rightarrow> m\<lparr>m_delete_status_id := t_delete_status_id t,
                               m_updated_at := now\<rparr>) tab,
      length (filter (\<lambda>m. list_ex (matches m) temp) tab))"

text \<open>
  The body of the \<^verbatim>\<open>with engine.begin() as conn:\<close> block, the same in both files:
  statement 0 creates the temporary table, statement 1 stages \<^verbatim>\<open>records\<close> in it,
  statement 2 is the insert, statement 3 the update. Any statement may raise (connection
  loss, a value out of the column's range, a parameter list the driver refuses, ...):
  \<open>fault k\<close> tells whether statement \<open>k\<close> does. The body works on the table as the
  transaction sees it and returns that table with the two row counts.
\<close>

definition upsert_statements ::
  "(nat \<Rightarrow> bool) \<Rightarrow> timestamp \<Rightarrow> staged list \<Rightarrow> assoc list \<Rightarrow> error + (assoc list \<times> nat \<times> nat)" where
  "upsert_statements fault now records tab =
     (if fault 0 then Inl (StorageError 0) else
      let temp = [] in
      if fault 1 then Inl (StorageError 1) else
      let temp = temp @ records in
      if fault 2 then Inl (StorageError 2) else
      let (tab1, inserted) = insert_new now temp tab in
      if fault 3 then Inl (StorageError 3) else
      let (tab2, updated) = update_existing now temp tab1 in
      Inr (tab2, inserted, updated))"

text \<open>
  \<^verbatim>\<open>engine.begin()\<close> opens a transaction, runs the body, and commits when the body ends
  normally; when the body (or the commit, step 4) raises, it rolls back and lets the
  exception through. The temporary table is dropped either way.
\<close>

definition engine_begin ::
  "(nat \<Rightarrow> bool) \<Rightarrow> (assoc list \<Rightarrow> error + (assoc list \<times> 'r)) \<Rightarrow> store \<Rightarrow> (error + 'r) \<times> store" where
  "engine_begin fault body st =
     (let st1 = st\<lparr>invocations := invocations st + 1\<rparr> in
      case body (tbl st1) of
        Inl e \<Rightarrow> (Inl e, st1)
      | Inr (work, r) \<Rightarrow>
          if fault 4 then (Inl (StorageError 4), st1)
          else (Inr r, st1\<lparr>tbl := work\<rparr>))"

subsection \<open>The web handler (app.py)\<close>

text \<open>
  The JSON body of the request, after \<^verbatim>\<open>data.get('reason_names', [])\<close> and
  \<^verbatim>\<open>data.get('asset_ids', [])\<close>. The reasons are texts; the asset identifiers are JSON
  values of any kind \<open>'a\<close>, and \<open>py_int\<close> stands for Python's \<^verbatim>\<open>int()\<close> on them:
  \<open>None\<close> when it raises.
\<close>

record 'a upload_request =
  reason_names :: "string list"
  asset_ids :: "'a list"

text \<open>
  What the caller of the handler gets: a 400 reply with its message, the exception of
  \<^verbatim>\<open>int()\<close> leaving the handler (the conversion is outside the \<^verbatim>\<open>try\<close>), the 500
  reply "Database error", or the reply with \<^verbatim>\<open>inserted\<close>, \<^verbatim>\<open>updated\<close> and
  \<^verbatim>\<open>total_processed\<close>.
\<close>

datatype outcome =
    BadRequest string
  | ConversionError
  | DatabaseError error
  | Success nat nat nat

text \<open>
  \<^verbatim>\<open>list(set([str(r).strip() for r in reason_names if str(r).strip()]))\<close>. The order in
  which Python lists a set is unspecified; the model lists each text once, in some order.
\<close>

definition clean_reason_names :: "string list \<Rightarrow> string list" where
  "clean_reason_names rs = remdups (map strip (filter (\<lambda>r. strip r \<noteq> []) rs))"

text \<open>\<^verbatim>\<open>[int(a) for a in asset_ids]\<close>: the first failing conversion raises.\<close>

primrec convert_ids :: "('a \<Rightarrow> int option) \<Rightarrow> 'a list \<Rightarrow> int list option" where
  "convert_ids py_int [] = Some []"
| "convert_ids py_int (a # as) =
     (case py_int a of
        None \<Rightarrow> None
      | Some i \<Rightarrow> (case convert_ids py_int as of None \<Rightarrow> None | Some is \<Rightarrow> Some (i # is)))"



text \<open>The two nested loops that fill \<^verbatim>\<open>records\<close> (and \<^verbatim>\<open>expanded_rows\<close>).\<close>

definition expand :: "string list \<Rightarrow> int list \<Rightarrow> staged list" where
  "expand names ids =
     concat (map (\<lambda>reason. map (\<lambda>asset_id.
        \<lparr>t_name = reason, t_asset_id = asset_id, t_delete_status_id = 0\<rparr>) ids) names)"

text \<open>
  The handler. \<open>data = None\<close> is a body for which \<^verbatim>\<open>not data\<close> holds.
\<close>

definition process_upload ::
  "(nat \<Rightarrow> bool) \<Rightarrow> timestamp \<Rightarrow> ('a \<Rightarrow> int option) \<Rightarrow> 'a upload_request option \<Rightarrow> store
     \<Rightarrow> outcome \<times> store" where
  "process_upload fault now py_int data st =
     (case data of
        None \<Rightarrow> (BadRequest ''No data provided'', st)
      | Some req \<Rightarrow>
          if reason_names req = [] then (BadRequest ''No reason names provided'', st)
          else if asset_ids req = [] then (BadRequest ''No assets selected'', st)
          else
            let names = clean_reason_names (reason_names req) in
            case convert_ids py_int (asset_ids req) of
              None \<Rightarrow> (ConversionError, st)
            | Some ids \<Rightarrow>
                if names = [] then
                  (BadRequest ''No valid reason names found after cleaning'', st)
                else
                  let records = expand names ids in
                  case engine_begin fault (upsert_statements fault now records) st of
                    (Inl e, st') \<Rightarrow> (DatabaseError e, st')
                  | (Inr (inserted, updated), st') \<Rightarrow>
                      (Success inserted updated (length records), st'))"

subsection \<open>The standalone importer (bulk-upload-from-file.py)\<close>

text \<open>
  A cell of the reason column as \<^verbatim>\<open>pd.read_excel\<close> delivers it: a text, or NaN for a
  blank cell. \<^verbatim>\<open>astype(str)\<close> keeps a text and turns NaN into the text \<^verbatim>\<open>nan\<close>.
\<close>

datatype cell = Blank | Text string

fun astype_str :: "cell \<Rightarrow> string" where
  "astype_str Blank = ''nan''"
| "astype_str (Text s) = s"

text \<open>
  \<^verbatim>\<open>load_excel\<close>, from the cells of the chosen column on:
  \<^verbatim>\<open>df[reason_col].astype(str).str.strip()\<close>, then the rows with \<^verbatim>\<open>!= ""\<close>.
\<close>

definition load_excel :: "cell list \<Rightarrow> string list" where
  "load_excel column = filter (\<lambda>s. s \<noteq> []) (map (\<lambda>c. strip (astype_str c)) column)"

text \<open>
  \<^verbatim>\<open>drop_duplicates(subset=["name", "asset_id"])\<close> keeps the first row of each
  (name, asset_id) pair.
\<close>

fun drop_duplicates :: "staged list \<Rightarrow> staged list" where
  "drop_duplicates [] = []"
| "drop_duplicates (r # rs) =
     r # drop_duplicates
           (filter (\<lambda>r'. \<not> (t_name r' = t_name r \<and> t_asset_id r' = t_asset_id r)) rs)"

text \<open>
  \<^verbatim>\<open>expand_per_asset\<close>; \<open>ASSET_IDS\<close> is the list read from the environment.
\<close>

definition expand_per_asset :: "int list \<Rightarrow> string list \<Rightarrow> staged list" where
  "expand_per_asset ASSET_IDS names = drop_duplicates (expand names ASSET_IDS)"

text \<open>
  \<^verbatim>\<open>upsert_data\<close> logs the two counts, or lets the exception through after the
  rollback.
\<close>

definition upsert_data ::
  "(nat \<Rightarrow> bool) \<Rightarrow> timestamp \<Rightarrow> staged list \<Rightarrow> store \<Rightarrow> (error + nat \<times> nat) \<times> store" where
  "upsert_data fault now records st =
     engine_begin fault (upsert_statements fault now records) st"

definition main ::
  "(nat \<Rightarrow> bool) \<Rightarrow> timestamp \<Rightarrow> int list \<Rightarrow> cell list \<Rightarrow> store \<Rightarrow> (error + nat \<times> nat) \<times> store" where
  "main fault now ASSET_IDS column st =
     upsert_data fault now (expand_per_asset ASSET_IDS (load_excel column)) st"

subsection \<open>Vocabulary of the specification\<close>

text \<open>The (label, target_id) pair of a table row and of a candidate.\<close>

definition m_key :: "assoc \<Rightarrow> string \<times> int" where
  "m_key m = (m_name m, m_asset_id m)"

definition t_key :: "staged \<Rightarrow> string \<times> int" where
  "t_key t = (t_name t, t_asset_id t)"

text \<open>At most one row per (label, target_id) pair.\<close>

definition unique_pairs :: "assoc list \<Rightarrow> bool" where
  "unique_pairs tab = distinct (map m_key tab)"

section \<open>Auxiliary facts\<close>

subsection \<open>Trimming\<close>

lemma strip_empty_iff: "strip s = [] \<longleftrightarrow> list_all is_space s"
proof -
  have "strip s = [] \<longleftrightarrow> (\<forall>c\<in>set (dropWhile is_space s). is_space c)"
    by (simp add: strip_def)
  also have "\<dots> \<longleftrightarrow> dropWhile is_space (dropWhile is_space s) = []"
    by (simp only: dropWhile_eq_Nil_conv)
  also have "\<dots> \<longleftrightarrow> (\<forall>c\<in>set s. is_space c)"
    by simp
  also have "\<dots> \<longleftrightarrow> list_all is_space s"
    by (simp add: list_all_iff)
  finally show ?thesis .
qed

lemma strip_decompose:
  "\<exists>pre post. s = pre @ strip s @ post \<and> list_all is_space pre \<and> list_all is_space post"
proof -
  let ?d = "dropWhile is_space s"
  let ?pre = "takeWhile is_space s"
  let ?post = "rev (takeWhile is_space (rev ?d))"
  have "strip s @ ?post = rev (takeWhile is_space (rev ?d) @ dropWhile is_space (rev ?d))"
    by (simp only: strip_def rev_append)
  also have "\<dots> = rev (rev ?d)"
    by (simp only: takeWhile_dropWhile_id)
  finally have d: "strip s @ ?post = ?d" by simp
  have "s = ?pre @ ?d" by simp
  with d have "s = ?pre @ strip s @ ?post" by simp
  moreover have "list_all is_space ?pre"
    unfolding list_all_iff using set_takeWhileD by fastforce
  moreover have "list_all is_space ?post"
    unfolding list_all_iff set_rev using set_takeWhileD by fastforce
  ultimately show ?thesis by blast
qed

lemma strip_ends:
  assumes "strip s \<noteq> []"
  shows "\<not> is_space (hd (strip s)) \<and> \<not> is_space (last (strip s))"
proof -
  let ?d = "dropWhile is_space s"
  let ?e = "dropWhile is_space (rev ?d)"
  have s: "strip s = rev ?e" by (simp only: strip_def)
  with assms have e: "?e \<noteq> []" by (simp only: rev_is_Nil_conv not_False_eq_True)
  have d: "?d \<noteq> []"
  proof
    assume "?d = []"
    then have "?e = []" by (simp only: rev.simps dropWhile.simps)
    with e show False by contradiction
  qed
  have "last (strip s) = hd ?e" by (simp only: s last_rev)
  moreover have "\<not> is_space (hd ?e)" using e by (rule hd_dropWhile)
  ultimately have l: "\<not> is_space (last (strip s))" by simp
  have "rev ?d = takeWhile is_space (rev ?d) @ ?e"
    by (simp only: takeWhile_dropWhile_id)
  then have "last (rev ?d) = last (takeWhile is_space (rev ?d) @ ?e)" by (simp only:)
  also have "\<dots> = last ?e" using e by (rule last_appendR)
  finally have "hd ?d = last ?e" by (simp only: last_rev)
  moreover have "hd (strip s) = last ?e" by (simp only: s hd_rev)
  moreover have "\<not> is_space (hd ?d)" using d by (rule hd_dropWhile)
  ultimately have "\<not> is_space (hd (strip s))" by simp
  with l show ?thesis by simp
qed

lemma is_space_codes:
  "is_space c \<longleftrightarrow> of_char c \<in> {9, 10, 11, 12, 13, 28, 29, 30, 31, 32, 133, 160 :: nat}"
proof -
  let ?ws = "[CHR 0x09, CHR 0x0A, CHR 0x0B, CHR 0x0C, CHR 0x0D, CHR 0x1C, CHR 0x1D, CHR 0x1E,
              CHR 0x1F, CHR 0x20, CHR 0x85, CHR 0xA0]"
  have "c \<in> set ?ws \<longleftrightarrow> (of_char c :: nat) \<in> of_char ` set ?ws"
    using inj_of_char [where ?'a = nat] by (rule inj_image_mem_iff [symmetric])
  also have "(of_char ` set ?ws :: nat set) = {9, 10, 11, 12, 13, 28, 29, 30, 31, 32, 133, 160}"
    by simp
  finally show ?thesis by (simp only: is_space_def)
qed

subsection \<open>The statements, in terms of (label, target) pairs\<close>

lemma list_ex_matches_table:
  "list_ex (\<lambda>m. matches m t) tab \<longleftrightarrow> t_key t \<in> set (map m_key tab)"
  by (induction tab) (auto simp: matches_def m_key_def t_key_def)

lemma list_ex_matches_temp:
  "list_ex (matches m) temp \<longleftrightarrow> m_key m \<in> set (map t_key temp)"
  by (induction temp) (auto simp: matches_def m_key_def t_key_def)

lemma keys_insert_new:
  "map m_key (fst (insert_new now temp tab)) =
     map m_key tab @ map t_key (filter (\<lambda>t. t_key t \<notin> set (map m_key tab)) temp)"
  by (simp add: insert_new_def Let_def list_ex_matches_table m_key_def t_key_def comp_def)

lemma count_insert_new:
  "snd (insert_new now temp tab) =
     length (filter (\<lambda>t. t_key t \<notin> set (map m_key tab)) temp)"
  by (simp add: insert_new_def Let_def list_ex_matches_table)

lemma keys_update_existing: "map m_key (fst (update_existing now temp tab)) = map m_key tab"
  by (induction tab) (auto simp: update_existing_def m_key_def split: option.splits)

lemma count_update_existing:
  "snd (update_existing now temp tab) =
     length (filter (\<lambda>k. k \<in> set (map t_key temp)) (map m_key tab))"
  by (simp add: update_existing_def list_ex_matches_temp filter_map comp_def)

lemma unique_pairs_insert_new:
  assumes "unique_pairs tab" and "distinct (map t_key temp)"
  shows "unique_pairs (fst (insert_new now temp tab))"
proof -
  have "distinct (map t_key (filter (\<lambda>t. t_key t \<notin> set (map m_key tab)) temp))"
    using assms(2) by (rule distinct_map_filter)
  moreover have "set (map m_key tab) \<inter>
      set (map t_key (filter (\<lambda>t. t_key t \<notin> set (map m_key tab)) temp)) = {}"
    by auto
  ultimately show ?thesis
    using assms(1) unfolding unique_pairs_def keys_insert_new by (simp only: distinct_append simp_thms)
qed

lemma unique_pairs_update_existing:
  "unique_pairs tab \<Longrightarrow> unique_pairs (fst (update_existing now temp tab))"
  by (simp add: unique_pairs_def keys_update_existing)

lemma length_filter_member:
  assumes "distinct ks" and "K \<subseteq> set ks"
  shows "length (filter (\<lambda>k. k \<in> K) ks) = card K"
proof -
  have "distinct (filter (\<lambda>k. k \<in> K) ks)" using assms(1) by simp
  moreover have "set (filter (\<lambda>k. k \<in> K) ks) = K" using assms(2) by auto
  ultimately show ?thesis using distinct_card by fastforce
qed

subsection \<open>The transaction\<close>

lemma upsert_statements_unfold:
  "upsert_statements fault now records tab =
     (if fault 0 then Inl (StorageError 0)
      else if fault 1 then Inl (StorageError 1)
      else if fault 2 then Inl (StorageError 2)
      else if fault 3 then Inl (StorageError 3)
      else Inr (fst (update_existing now records (fst (insert_new now records tab))),
                snd (insert_new now records tab),
                snd (update_existing now records (fst (insert_new now records tab)))))"
  by (simp add: upsert_statements_def Let_def split_beta)

lemma engine_begin_upsert:
  "engine_begin fault (upsert_statements fault now records) st =
     (if fault 0 then (Inl (StorageError 0), st\<lparr>invocations := invocations st + 1\<rparr>)
      else if fault 1 then (Inl (StorageError 1), st\<lparr>invocations := invocations st + 1\<rparr>)
      else if fault 2 then (Inl (StorageError 2), st\<lparr>invocations := invocations st + 1\<rparr>)
      else if fault 3 then (Inl (StorageError 3), st\<lparr>invocations := invocations st + 1\<rparr>)
      else if fault 4 then (Inl (StorageError 4), st\<lparr>invocations := invocations st + 1\<rparr>)
      else (Inr (snd (insert_new now records (tbl st)),
                 snd (update_existing now records (fst (insert_new now records (tbl st))))),
            st\<lparr>invocations := invocations st + 1,
               tbl := fst (update_existing now records (fst (insert_new now records (tbl st))))\<rparr>))"
  by (simp add: engine_begin_def upsert_statements_unfold Let_def)

subsection \<open>The candidates\<close>

lemma expand_Cons:
  "expand (n # ns) ids =
     map (\<lambda>a. \<lparr>t_name = n, t_asset_id = a, t_delete_status_id = 0\<rparr>) ids @ expand ns ids"
  by (simp add: expand_def)

lemma keys_expand: "map t_key (expand names ids) = List.product names ids"
  by (induction names) (simp_all add: expand_Cons, simp_all add: expand_def t_key_def comp_def)

lemma length_expand: "length (expand names ids) = length names * length ids"
  by (induction names) (simp_all add: expand_Cons, simp add: expand_def)

lemma status_expand: "t \<in> set (expand names ids) \<Longrightarrow> t_delete_status_id t = 0"
  by (auto simp: expand_def)

lemma distinct_clean_reason_names: "distinct (clean_reason_names rs)"
  by (simp add: clean_reason_names_def)

lemma set_clean_reason_names:
  "set (clean_reason_names rs) = {l. l \<noteq> [] \<and> (\<exists>r\<in>set rs. l = strip r)}"
  by (auto simp: clean_reason_names_def)


lemma process_upload_unfold:
  "process_upload fault now py_int (Some req) st =
     (if reason_names req = [] then (BadRequest ''No reason names provided'', st)
      else if asset_ids req = [] then (BadRequest ''No assets selected'', st)
      else case convert_ids py_int (asset_ids req) of
        None \<Rightarrow> (ConversionError, st)
      | Some ids \<Rightarrow>
          if clean_reason_names (reason_names req) = [] then
            (BadRequest ''No valid reason names found after cleaning'', st)
          else if fault 0 then
            (DatabaseError (StorageError 0), st\<lparr>invocations := invocations st + 1\<rparr>)
          else if fault 1 then
            (DatabaseError (StorageError 1), st\<lparr>invocations := invocations st + 1\<rparr>)
          else if fault 2 then
            (DatabaseError (StorageError 2), st\<lparr>invocations := invocations st + 1\<rparr>)
          else if fault 3 then
            (DatabaseError (StorageError 3), st\<lparr>invocations := invocations st + 1\<rparr>)
          else if fault 4 then
            (DatabaseError (StorageError 4), st\<lparr>invocations := invocations st + 1\<rparr>)
          else
            (Success
               (snd (insert_new now (expand (clean_reason_names (reason_names req)) ids) (tbl st)))
               (snd (update_existing now (expand (clean_reason_names (reason_names req)) ids)
                  (fst (insert_new now (expand (clean_reason_names (reason_names req)) ids)
                     (tbl st)))))
               (length (expand (clean_reason_names (reason_names req)) ids)),
             st\<lparr>invocations := invocations st + 1,
                tbl := fst (update_existing now
                  (expand (clean_reason_names (reason_names req)) ids)
                  (fst (insert_new now (expand (clean_reason_names (reason_names req)) ids)
                     (tbl st))))\<rparr>))"
  by (simp add: process_upload_def Let_def engine_begin_upsert split: option.splits)

lemma upsert_data_unfold:
  "upsert_data fault now records st =
     (if fault 0 then (Inl (StorageError 0), st\<lparr>invocations := invocations st + 1\<rparr>)
      else if fault 1 then (Inl (StorageError 1), st\<lparr>invocations := invocations st + 1\<rparr>)
      else if fault 2 then (Inl (StorageError 2), st\<lparr>invocations := invocations st + 1\<rparr>)
      else if fault 3 then (Inl (StorageError 3), st\<lparr>invocations := invocations st + 1\<rparr>)
      else if fault 4 then (Inl (StorageError 4), st\<lparr>invocations := invocations st + 1\<rparr>)
      else (Inr (snd (insert_new now records (tbl st)),
                 snd (update_existing now records (fst (insert_new now records (tbl st))))),
            st\<lparr>invocations := invocations st + 1,
               tbl := fst (update_existing now records (fst (insert_new now records (tbl st))))\<rparr>))"
  by (simp only: upsert_data_def engine_begin_upsert)

lemmas run_defs =
  process_upload_def clean_reason_names_def strip_def is_space_def expand_def
  engine_begin_def upsert_statements_def insert_new_def update_existing_def matches_def

subsection \<open>The importer's candidates\<close>

lemma set_drop_duplicates: "set (drop_duplicates rs) \<subseteq> set rs"
  by (induction rs rule: drop_duplicates.induct) auto

lemma keys_drop_duplicates: "set (map t_key (drop_duplicates rs)) = set (map t_key rs)"
proof (induction rs rule: drop_duplicates.induct)
  case 1
  show ?case by simp
next
  case (2 r rs)
  have "set (map t_key (filter (\<lambda>r'. \<not> (t_name r' = t_name r \<and> t_asset_id r' = t_asset_id r)) rs))
          = set (map t_key rs) - {t_key r}"
    by (auto simp: t_key_def)
  with 2 show ?case by auto
qed

lemma distinct_drop_duplicates: "distinct (map t_key (drop_duplicates rs))"
proof (induction rs rule: drop_duplicates.induct)
  case 1
  show ?case by simp
next
  case (2 r rs)
  have "t_key r \<notin> set (map t_key
          (filter (\<lambda>r'. \<not> (t_name r' = t_name r \<and> t_asset_id r' = t_asset_id r)) rs))"
    by (auto simp: t_key_def)
  then have "t_key r \<notin> set (map t_key (drop_duplicates
          (filter (\<lambda>r'. \<not> (t_name r' = t_name r \<and> t_asset_id r' = t_asset_id r)) rs)))"
    by (simp only: keys_drop_duplicates not_False_eq_True)
  with 2 show ?case by simp
qed

lemma strip_nan: "strip ''nan'' = ''nan''"
  by (simp add: strip_def is_space_def)

lemma member_expand:
  "\<lparr>t_name = n, t_asset_id = a, t_delete_status_id = 0\<rparr> \<in> set (expand names ids)
     \<longleftrightarrow> n \<in> set names \<and> a \<in> set ids"
  by (auto simp: expand_def)

lemma set_expand_per_asset: "set (expand_per_asset ids names) = set (expand names ids)"
proof
  show "set (expand_per_asset ids names) \<subseteq> set (expand names ids)"
    by (simp add: expand_per_asset_def set_drop_duplicates)
  show "set (expand names ids) \<subseteq> set (expand_per_asset ids names)"
  proof
    fix t assume t: "t \<in> set (expand names ids)"
    then have "t_key t \<in> set (map t_key (drop_duplicates (expand names ids)))"
      by (simp only: keys_drop_duplicates) simp
    then obtain t' where t': "t' \<in> set (drop_duplicates (expand names ids))"
      and k: "t_key t' = t_key t" by auto
    from t' have "t' \<in> set (expand names ids)" using set_drop_duplicates by blast
    then have "t_delete_status_id t' = 0" by (rule status_expand)
    moreover from t have "t_delete_status_id t = 0" by (rule status_expand)
    ultimately have "t' = t" using k by (simp add: t_key_def)
    with t' show "t \<in> set (expand_per_asset ids names)" by (simp add: expand_per_asset_def)
  qed
qed

subsection \<open>What the two statements do to the table\<close>

lemma update_row_cases:
  assumes "list_all (\<lambda>t. t_delete_status_id t = 0) temp"
  shows "(case find (matches m) temp of
            None \<Rightarrow> m
          | Some t \<Rightarrow> m\<lparr>m_delete_status_id := t_delete_status_id t, m_updated_at := now\<rparr>) = m \<or>
         (case find (matches m) temp of
            None \<Rightarrow> m
          | Some t \<Rightarrow> m\<lparr>m_delete_status_id := t_delete_status_id t, m_updated_at := now\<rparr>) =
           m\<lparr>m_delete_status_id := 0, m_updated_at := now\<rparr>"
proof (cases "find (matches m) temp")
  case None
  then show ?thesis by simp
next
  case (Some t)
  then have "t \<in> set temp" by (auto simp: find_Some_iff)
  with assms have "t_delete_status_id t = 0" by (simp add: list_all_iff)
  with Some show ?thesis by simp
qed

lemma merge_frame:
  assumes "list_all (\<lambda>t. t_delete_status_id t = 0) records"
  shows "list_all2 (\<lambda>old new. new = old \<or>
             new = old\<lparr>m_delete_status_id := 0, m_updated_at := now\<rparr>)
           tab (take (length tab)
             (fst (update_existing now records (fst (insert_new now records tab))))) \<and>
         list_all (\<lambda>m. m_delete_status_id m = 0)
           (drop (length tab)
             (fst (update_existing now records (fst (insert_new now records tab)))))"
proof -
  let ?upd = "\<lambda>m. case find (matches m) records of
                  None \<Rightarrow> m
                | Some t \<Rightarrow> m\<lparr>m_delete_status_id := t_delete_status_id t, m_updated_at := now\<rparr>"
  let ?new = "map (\<lambda>t. \<lparr>m_name = t_name t, m_asset_id = t_asset_id t,
                         m_delete_status_id = t_delete_status_id t,
                         m_created_at = now, m_updated_at = now\<rparr>)
                (filter (\<lambda>t. \<not> list_ex (\<lambda>m. matches m t) tab) records)"
  have merged: "fst (update_existing now records (fst (insert_new now records tab))) =
                  map ?upd tab @ map ?upd ?new"
    by (simp add: update_existing_def insert_new_def Let_def)
  have old: "list_all2 (\<lambda>old new. new = old \<or>
               new = old\<lparr>m_delete_status_id := 0, m_updated_at := now\<rparr>) tab (map ?upd tab)"
    unfolding list_all2_map2 using update_row_cases [OF assms]
    by (intro list_all2_all_nthI) auto
  have zero: "m_delete_status_id (?upd m) = 0" if "m_delete_status_id m = 0" for m
    using update_row_cases [OF assms, of m now] that by auto
  have "m_delete_status_id m = 0" if "m \<in> set ?new" for m
    using that assms by (auto simp: list_all_iff)
  with zero have new: "list_all (\<lambda>m. m_delete_status_id m = 0) (map ?upd ?new)"
    unfolding list_all_iff by auto
  from old new show ?thesis unfolding merged by simp
qed

lemma find_matches_None: "find (matches m) temp = None \<longleftrightarrow> \<not> list_ex (matches m) temp"
  by (auto simp: find_None_iff list_ex_iff)

lemma update_row_exact:
  assumes "list_all (\<lambda>t. t_delete_status_id t = 0) temp"
  shows "(case find (matches m) temp of
            None \<Rightarrow> m
          | Some t \<Rightarrow> m\<lparr>m_delete_status_id := t_delete_status_id t, m_updated_at := now\<rparr>) =
         (if list_ex (matches m) temp then m\<lparr>m_delete_status_id := 0, m_updated_at := now\<rparr>
          else m)"
proof (cases "find (matches m) temp")
  case None
  then have "\<not> list_ex (matches m) temp" using find_matches_None [of m temp] by blast
  with None show ?thesis by simp
next
  case (Some t)
  then have "t \<in> set temp" by (auto simp: find_Some_iff)
  with assms have "t_delete_status_id t = 0" by (simp add: list_all_iff)
  moreover from Some have "list_ex (matches m) temp"
    using find_matches_None [of m temp] by simp
  ultimately show ?thesis using Some by simp
qed

text \<open>The rows that were in the table before the two statements ran.\<close>

lemma merge_prior_rows:
  assumes "list_all (\<lambda>t. t_delete_status_id t = 0) records"
  shows "take (length tab)
           (fst (update_existing now records (fst (insert_new now records tab)))) =
         map (\<lambda>old. if list_ex (matches old) records
                     then old\<lparr>m_delete_status_id := 0, m_updated_at := now\<rparr> else old) tab"
  by (simp add: update_existing_def insert_new_def Let_def update_row_exact [OF assms])

lemma list_all2_map_fun: "list_all2 (\<lambda>old new. new = f old) xs (map f xs)"
  by (simp add: list_all2_map2 list_all2_same)

lemma set_load_excel_text: "set (load_excel (map Text rs)) = set (clean_reason_names rs)"
  by (auto simp: load_excel_def clean_reason_names_def)

lemma distinct_keys_expand:
  "distinct names \<Longrightarrow> distinct ids \<Longrightarrow> distinct (map t_key (expand names ids))"
  by (simp add: keys_expand distinct_product)

lemma keys_after_merge:
  "map m_key (fst (update_existing now records (fst (insert_new now records tab)))) =
     map m_key tab @ map t_key (filter (\<lambda>t. t_key t \<notin> set (map m_key tab)) records)"
  by (simp only: keys_update_existing keys_insert_new)

lemma merge_covers_candidates:
  "set (map t_key records) \<subseteq>
     set (map m_key (fst (update_existing now records (fst (insert_new now records tab)))))"
  unfolding keys_after_merge by auto

lemma unique_pairs_merge:
  "unique_pairs tab \<Longrightarrow> distinct (map t_key records) \<Longrightarrow>
     unique_pairs (fst (update_existing now records (fst (insert_new now records tab))))"
  by (intro unique_pairs_update_existing unique_pairs_insert_new)

text \<open>A call on a table that already holds every candidate pair once.\<close>

lemma merge_when_present:
  assumes "unique_pairs tab" and "distinct (map t_key records)"
    and "set (map t_key records) \<subseteq> set (map m_key tab)"
  shows "snd (insert_new now records tab) = 0"
    and "snd (update_existing now records (fst (insert_new now records tab))) = length records"
    and "map m_key (fst (update_existing now records (fst (insert_new now records tab)))) =
           map m_key tab"
proof -
  have none: "filter (\<lambda>t. t_key t \<notin> set (map m_key tab)) records = []"
    using assms(3) by (auto simp: filter_empty_conv)
  show "snd (insert_new now records tab) = 0"
    by (simp only: count_insert_new none list.size)
  have keys: "map m_key (fst (insert_new now records tab)) = map m_key tab"
    by (simp only: keys_insert_new none list.map append_Nil2)
  show "map m_key (fst (update_existing now records (fst (insert_new now records tab)))) =
          map m_key tab"
    by (simp only: keys_update_existing keys)
  have "snd (update_existing now records (fst (insert_new now records tab))) =
          length (filter (\<lambda>k. k \<in> set (map t_key records)) (map m_key tab))"
    by (simp only: count_update_existing keys)
  also have "\<dots> = card (set (map t_key records))"
    using assms(1,3) unfolding unique_pairs_def by (rule length_filter_member)
  also have "\<dots> = length (map t_key records)"
    using assms(2) by (rule distinct_card)
  finally show "snd (update_existing now records (fst (insert_new now records tab))) =
          length records"
    by simp
qed

section \<open>The claims\<close>

subsection \<open>Counts returned by a successful call\<close>

text \<open>
  C1 claims that a successful call returns \<open>inserted + updated = |candidates|\<close>, the
  update phase counting only the pairs that existed before the call. The update statement
  runs after the insert statement, in the same transaction, so it also matches the rows
  that statement has just inserted. For one reason and one asset on an empty table the
  handler answers \<open>inserted = 1\<close>, \<open>updated = 1\<close>, \<open>total_processed = 1\<close>: the
  single candidate is counted in both phases.
\<close>

theorem update_counts_inserted_rows:
  "process_upload (\<lambda>k. False) now Some
     (Some \<lparr>reason_names = [''a''], asset_ids = [1]\<rparr>) \<lparr>tbl = [], invocations = 0\<rparr> =
   (Success 1 1 1,
    \<lparr>tbl = [\<lparr>m_name = ''a'', m_asset_id = 1, m_delete_status_id = 0,
              m_created_at = now, m_updated_at = now\<rparr>], invocations = 1\<rparr>)"
  by (simp add: run_defs)

text \<open>
  X1: in both call sites the row count of the update statement is the number of rows of
  the table before the call whose pair is a candidate, plus the number of rows the insert
  statement has just added.
\<close>

theorem update_count_includes_inserted:
  "snd (update_existing now records (fst (insert_new now records tab))) =
     snd (update_existing now records tab) + snd (insert_new now records tab)"
proof -
  let ?absent = "filter (\<lambda>t. t_key t \<notin> set (map m_key tab)) records"
  have "filter (\<lambda>k. k \<in> set (map t_key records)) (map t_key ?absent) = map t_key ?absent"
    by (auto simp: filter_id_conv)
  then have "length (filter (\<lambda>k. k \<in> set (map t_key records)) (map t_key ?absent)) =
               length ?absent"
    by simp
  then show ?thesis
    by (simp only: count_update_existing count_insert_new keys_insert_new filter_append
        length_append)
qed

subsection \<open>Repeated asset identifiers in the web handler\<close>

text \<open>
  C2 claims that a call keeps "at most one row per (label, target_id) pair", also when
  the list of asset identifiers holds an identifier twice. The web handler stages one
  record per element of that list, and the insert statement inserts every staged record
  without a match in the table as it was before the statement: on an empty table the
  request with reason \<open>a\<close> and asset identifiers \<open>[10, 10]\<close> leaves two rows for the
  pair \<open>(a, 10)\<close>.
\<close>

theorem repeated_asset_id_breaks_unique_pairs:
  "unique_pairs (tbl \<lparr>tbl = [], invocations = 0\<rparr>) \<and>
   \<not> unique_pairs (tbl (snd (process_upload (\<lambda>k. False) now Some
        (Some \<lparr>reason_names = [''a''], asset_ids = [10, 10]\<rparr>)
        \<lparr>tbl = [], invocations = 0\<rparr>)))"
  by (simp add: run_defs unique_pairs_def m_key_def)

text \<open>
  C3 claims that a repeated asset identifier contributes no extra candidate, in both call
  sites. In the web handler it does: for reason \<open>a\<close> and asset identifiers \<open>[10, 10]\<close>
  there are two records, where the distinct labels times the distinct identifiers are one,
  and the handler reports \<open>total_processed = 2\<close>.
\<close>

theorem repeated_asset_id_adds_candidates:
  "length (expand (clean_reason_names [''a'']) [10, 10]) = 2 \<and>
   card (set (clean_reason_names [''a''])) * card (set [10, 10 :: int]) = 1 \<and>
   fst (process_upload (\<lambda>k. False) now Some
        (Some \<lparr>reason_names = [''a''], asset_ids = [10, 10]\<rparr>)
        \<lparr>tbl = [], invocations = 0\<rparr>) = Success 2 2 2"
  by (simp add: run_defs)

text \<open>
  X2: the importer, which calls \<^verbatim>\<open>drop_duplicates\<close> on the expanded rows, stages each
  pair once: its candidates are the cross product of the distinct labels and the distinct
  asset identifiers.
\<close>

theorem importer_candidates_cross_product:
  "distinct (map t_key (expand_per_asset ASSET_IDS names)) \<and>
   set (map t_key (expand_per_asset ASSET_IDS names)) = set names \<times> set ASSET_IDS \<and>
   length (expand_per_asset ASSET_IDS names) = card (set names) * card (set ASSET_IDS)"
proof -
  let ?c = "expand_per_asset ASSET_IDS names"
  have d: "distinct (map t_key ?c)"
    by (simp only: expand_per_asset_def distinct_drop_duplicates)
  have s: "set (map t_key ?c) = set names \<times> set ASSET_IDS"
    by (simp only: expand_per_asset_def keys_drop_duplicates keys_expand set_product)
  have "length ?c = length (map t_key ?c)" by simp
  also have "\<dots> = card (set (map t_key ?c))" using d by (simp only: distinct_card)
  also have "\<dots> = card (set names) * card (set ASSET_IDS)"
    by (simp only: s card_cartesian_product)
  finally show ?thesis using d s by simp
qed

text \<open>
  X3: a run of the importer keeps "at most one row per pair", whatever the column and the
  list of asset identifiers hold and whatever fails.
\<close>

theorem importer_keeps_unique_pairs:
  assumes "unique_pairs (tbl st)"
  shows "unique_pairs (tbl (snd (main fault now ASSET_IDS column st)))"
proof -
  have "distinct (map t_key (expand_per_asset ASSET_IDS (load_excel column)))"
    by (simp only: expand_per_asset_def distinct_drop_duplicates)
  with assms have "unique_pairs (fst (update_existing now
      (expand_per_asset ASSET_IDS (load_excel column))
      (fst (insert_new now (expand_per_asset ASSET_IDS (load_excel column)) (tbl st)))))"
    by (rule unique_pairs_merge)
  with assms show ?thesis
    by (simp add: main_def upsert_data_unfold)
qed

theorem importer_keeps_unique_pairs_witness:
  "tbl (snd (main (\<lambda>k. False) 3 [10, 10] [Text ''a'', Text '' a'']
     \<lparr>tbl = [], invocations = 0\<rparr>)) =
     [\<lparr>m_name = ''a'', m_asset_id = 10, m_delete_status_id = 0,
       m_created_at = 3, m_updated_at = 3\<rparr>]"
  using importer_keeps_unique_pairs [of "\<lparr>tbl = [], invocations = 0\<rparr>" "\<lambda>k. False" 3
      "[10, 10]" "[Text ''a'', Text '' a'']"]
  by (simp add: main_def upsert_data_def expand_per_asset_def load_excel_def run_defs)

subsection \<open>Scenario A\<close>

text \<open>
  C4 is the scenario with labels \<open>" Jam ", "jam", "Breakdown"\<close> and targets \<open>10, 20\<close> on
  an empty table. The three trimmed labels stay distinct and there are six candidates, and
  six rows are inserted, as claimed; but the handler answers \<open>updated = 6\<close>, not 0, since
  the update statement matches the six rows just inserted.
\<close>

theorem scenario_A:
  "clean_reason_names ['' Jam '', ''jam'', ''Breakdown''] = [''Jam'', ''jam'', ''Breakdown''] \<and>
   length (expand (clean_reason_names ['' Jam '', ''jam'', ''Breakdown'']) [10, 20]) = 6 \<and>
   fst (process_upload (\<lambda>k. False) now Some
        (Some \<lparr>reason_names = ['' Jam '', ''jam'', ''Breakdown''], asset_ids = [10, 20]\<rparr>)
        \<lparr>tbl = [], invocations = 0\<rparr>) = Success 6 6 6"
  by (simp add: run_defs)

subsection \<open>Validation\<close>




subsection \<open>Labels\<close>

text \<open>
  C8 claims that the candidate builder trims, drops and deduplicates the labels and that
  an input whose labels are all empty or whitespace-only fails with a validation error.
  The web handler does all of it (X6 below). The importer trims and drops in
  \<^verbatim>\<open>load_excel\<close> and removes duplicates in \<^verbatim>\<open>expand_per_asset\<close>, but it has no check
  for the case that no label is left: for a column holding only whitespace it goes on with
  no candidate, opens the transaction and, according to whether the driver takes the empty
  list of parameters, logs \<open>inserted = 0, updated = 0\<close> or stops at the staging statement
  with the error of the storage layer. The web handler, on the same labels, answers with
  its 400 reply and does not touch the store.
\<close>

theorem importer_runs_without_labels:
  "load_excel [Text ''  '', Text [CHR 0x09, CHR 0x0A]] = [] \<and>
   expand_per_asset [10] (load_excel [Text ''  '', Text [CHR 0x09, CHR 0x0A]]) = [] \<and>
   main (\<lambda>k. False) 0 [10] [Text ''  '', Text [CHR 0x09, CHR 0x0A]]
     \<lparr>tbl = [], invocations = 0\<rparr> =
     (Inr (0, 0), \<lparr>tbl = [], invocations = 1\<rparr>) \<and>
   main (\<lambda>k. k = 1) 0 [10] [Text ''  '', Text [CHR 0x09, CHR 0x0A]]
     \<lparr>tbl = [], invocations = 0\<rparr> =
     (Inl (StorageError 1), \<lparr>tbl = [], invocations = 1\<rparr>) \<and>
   process_upload (\<lambda>k. False) 0 Some
     (Some \<lparr>reason_names = [''  '', [CHR 0x09, CHR 0x0A]], asset_ids = [10]\<rparr>)
     \<lparr>tbl = [], invocations = 0\<rparr> =
     (BadRequest ''No valid reason names found after cleaning'', \<lparr>tbl = [], invocations = 0\<rparr>)"
  by (simp add: main_def upsert_data_def expand_per_asset_def load_excel_def run_defs)

text \<open>
  X6: the web handler trims each label, drops the labels that are empty after trimming,
  which are exactly the labels made of whitespace only, and keeps each remaining text once,
  compared as it is (so letter case counts). Whitespace is the twelve characters with the
  codes 9 to 13, 28 to 32, 133 and 160. Trimming removes a whitespace prefix and a
  whitespace suffix and leaves a text that neither starts nor ends with whitespace. A
  request whose labels are all empty or whitespace-only, with asset identifiers that
  convert, gets a 400 reply and the store is not touched. On a column of texts the
  importer's \<^verbatim>\<open>load_excel\<close> keeps the same labels.
\<close>

theorem labels_trimmed_and_deduplicated:
  "set (clean_reason_names rs) = {l. l \<noteq> [] \<and> (\<exists>r\<in>set rs. l = strip r)} \<and>
   distinct (clean_reason_names rs) \<and>
   (\<forall>c. is_space c =
      (of_char c \<in> {9, 10, 11, 12, 13, 28, 29, 30, 31, 32, 133, 160 :: nat})) \<and>
   (\<forall>r. (strip r = []) = list_all is_space r) \<and>
   (\<forall>r. \<exists>pre post. r = pre @ strip r @ post \<and> list_all is_space pre \<and> list_all is_space post) \<and>
   (\<forall>r. strip r \<noteq> [] \<longrightarrow> \<not> is_space (hd (strip r)) \<and> \<not> is_space (last (strip r))) \<and>
   (list_all (\<lambda>r. list_all is_space r) rs \<and> as \<noteq> [] \<and> convert_ids py_int as = Some ids \<longrightarrow>
      process_upload fault now py_int (Some \<lparr>reason_names = rs, asset_ids = as\<rparr>) st =
        (BadRequest (if rs = [] then ''No reason names provided''
                     else ''No valid reason names found after cleaning''), st)) \<and>
   set (load_excel (map Text rs)) = set (clean_reason_names rs)"
proof -
  have "clean_reason_names rs = []" if "list_all (\<lambda>r. list_all is_space r) rs"
    using that by (simp add: clean_reason_names_def strip_empty_iff list_all_iff filter_empty_conv)
  then have "process_upload fault now py_int (Some \<lparr>reason_names = rs, asset_ids = as\<rparr>) st =
        (BadRequest (if rs = [] then ''No reason names provided''
                     else ''No valid reason names found after cleaning''), st)"
    if "list_all (\<lambda>r. list_all is_space r) rs" "as \<noteq> []" "convert_ids py_int as = Some ids"
    using that by (simp add: process_upload_unfold)
  then show ?thesis
    using set_clean_reason_names [of rs] distinct_clean_reason_names [of rs]
      strip_empty_iff strip_decompose strip_ends is_space_codes set_load_excel_text [of rs]
    by blast
qed

theorem labels_trimmed_and_deduplicated_witness:
  "clean_reason_names
     [[CHR 0x09, CHR 0x0B, CHR 0x1C, CHR 0x85] @ ''Jam'' @ [CHR 0x0A, CHR 0x0D, CHR 0xA0],
      '' Jam '', ''Jam'', ''jam'', ''J am'', [CHR 0x0C, CHR 0x1D, CHR 0x1E, CHR 0x1F, CHR 0x20],
      ''''] = [''Jam'', ''jam'', ''J am''] \<and>
   process_upload (\<lambda>k. False) 0 Some
     (Some \<lparr>reason_names = [[CHR 0x09, CHR 0xA0], ''''], asset_ids = [10]\<rparr>)
     \<lparr>tbl = [], invocations = 0\<rparr> =
     (BadRequest ''No valid reason names found after cleaning'', \<lparr>tbl = [], invocations = 0\<rparr>)"
  using labels_trimmed_and_deduplicated [of "[[CHR 0x09, CHR 0xA0], '''']" "[10]" Some "[10]"
      "\<lambda>k. False" 0 "\<lparr>tbl = [], invocations = 0\<rparr>"]
  by (simp add: run_defs)

text \<open>
  C10: in the importer a blank cell of the reason column becomes the text \<open>nan\<close>, which
  is not empty, so it passes the filter of \<^verbatim>\<open>load_excel\<close> and is expanded into a
  candidate for every asset identifier.
\<close>

theorem blank_cell_becomes_nan:
  assumes "Blank \<in> set column" and "a \<in> set ASSET_IDS"
  shows "astype_str Blank = ''nan'' \<and> ''nan'' \<in> set (load_excel column) \<and>
         \<lparr>t_name = ''nan'', t_asset_id = a, t_delete_status_id = 0\<rparr>
           \<in> set (expand_per_asset ASSET_IDS (load_excel column))"
proof -
  have "strip (astype_str Blank) = ''nan''" by (simp add: strip_nan)
  with assms(1) have "''nan'' \<in> set (load_excel column)"
    by (force simp: load_excel_def)
  with assms(2) show ?thesis
    by (simp add: set_expand_per_asset member_expand)
qed

theorem blank_cell_becomes_nan_witness:
  "expand_per_asset [7] (load_excel [Text '' Jam '', Blank, Text ''  '']) =
     [\<lparr>t_name = ''Jam'', t_asset_id = 7, t_delete_status_id = 0\<rparr>,
      \<lparr>t_name = ''nan'', t_asset_id = 7, t_delete_status_id = 0\<rparr>]"
  using blank_cell_becomes_nan [of "[Text '' Jam '', Blank, Text ''  '']" 7 "[7]"]
  by (simp add: expand_per_asset_def load_excel_def expand_def strip_def is_space_def)

subsection \<open>Atomicity\<close>

text \<open>
  C6: when any step of the transaction fails (creating the temporary table, staging, the
  insert, the update, or the commit), the table after the call is the table before it and
  the call does not report success. When the request passes validation the handler
  answers with the one database error of the failing step, and the store differs from the
  store before the call only in the count of transactions opened. \<^verbatim>\<open>upsert_data\<close> of
  the importer raises that same error, on the unchanged table.
\<close>

theorem reconcile_atomic:
  assumes "fault 0 \<or> fault 1 \<or> fault 2 \<or> fault 3 \<or> fault 4"
  shows "tbl (snd (process_upload fault now py_int data st)) = tbl st \<and>
         (\<forall>i u n. fst (process_upload fault now py_int data st) \<noteq> Success i u n) \<and>
         (reason_names req \<noteq> [] \<and> asset_ids req \<noteq> [] \<and>
          convert_ids py_int (asset_ids req) = Some ids \<and>
          clean_reason_names (reason_names req) \<noteq> [] \<longrightarrow>
            (\<exists>k. fault k \<and>
               process_upload fault now py_int (Some req) st =
                 (DatabaseError (StorageError k), st\<lparr>invocations := invocations st + 1\<rparr>))) \<and>
         (\<exists>k. fault k \<and>
            upsert_data fault now records st =
              (Inl (StorageError k), st\<lparr>invocations := invocations st + 1\<rparr>))"
proof -
  have web: "tbl (snd (process_upload fault now py_int data st)) = tbl st \<and>
             (\<forall>i u n. fst (process_upload fault now py_int data st) \<noteq> Success i u n)"
  proof (cases data)
    case None
    then show ?thesis by (simp add: process_upload_def)
  next
    case (Some r)
    with assms show ?thesis
      by (auto simp: process_upload_unfold split: option.splits)
  qed
  have valid: "\<exists>k. fault k \<and>
         process_upload fault now py_int (Some req) st =
           (DatabaseError (StorageError k), st\<lparr>invocations := invocations st + 1\<rparr>)"
    if "reason_names req \<noteq> []" "asset_ids req \<noteq> []"
       "convert_ids py_int (asset_ids req) = Some ids"
       "clean_reason_names (reason_names req) \<noteq> []"
    using assms that by (auto simp: process_upload_unfold)
  have batch: "\<exists>k. fault k \<and>
         upsert_data fault now records st =
           (Inl (StorageError k), st\<lparr>invocations := invocations st + 1\<rparr>)"
    using assms by (auto simp: upsert_data_unfold)
  from web valid batch show ?thesis by blast
qed

text \<open>
  The update fails after the insert has run: the row the insert added is not in the table
  after the call.
\<close>

theorem reconcile_atomic_witness:
  "process_upload (\<lambda>k. k = 3) 5 Some
     (Some \<lparr>reason_names = [''Jam''], asset_ids = [10]\<rparr>) \<lparr>tbl = [], invocations = 0\<rparr> =
     (DatabaseError (StorageError 3), \<lparr>tbl = [], invocations = 1\<rparr>) \<and>
   upsert_data (\<lambda>k. k = 3) 5 [\<lparr>t_name = ''Jam'', t_asset_id = 10, t_delete_status_id = 0\<rparr>]
     \<lparr>tbl = [], invocations = 0\<rparr> =
     (Inl (StorageError 3), \<lparr>tbl = [], invocations = 1\<rparr>)"
  using reconcile_atomic [of "\<lambda>k. k = 3" 5 Some
      "Some \<lparr>reason_names = [''Jam''], asset_ids = [10]\<rparr>" "\<lparr>tbl = [], invocations = 0\<rparr>"
      "\<lparr>reason_names = [''Jam''], asset_ids = [10]\<rparr>" "[10]"
      "[\<lparr>t_name = ''Jam'', t_asset_id = 10, t_delete_status_id = 0\<rparr>]"]
  by (simp add: run_defs upsert_data_def)

subsection \<open>Frame of the writes\<close>

text \<open>
  C9: in the handler and in the importer, whatever the input and whatever fails, every
  row of the table before the call is still there after it, at its place. When the call
  succeeds, a row whose (name, asset) pair matches a staged candidate has its status set
  to 0 and its \<^verbatim>\<open>updated_at\<close> set to the time of the call, and nothing else of it
  changes (name, asset and \<^verbatim>\<open>created_at\<close> are as before); a row that matches no
  candidate is exactly as before. When the call does not succeed the table is as before.
  The rows after the prior ones are the new ones, all with status 0. No row is deleted.
\<close>

theorem writes_within_frame:
  "(data = Some req \<and> convert_ids py_int (asset_ids req) = Some ids \<longrightarrow>
      list_all2 (\<lambda>old new. new =
          (if (\<exists>i u n. fst (process_upload fault now py_int data st) = Success i u n) \<and>
              list_ex (matches old) (expand (clean_reason_names (reason_names req)) ids)
           then old\<lparr>m_delete_status_id := 0, m_updated_at := now\<rparr> else old))
        (tbl st)
        (take (length (tbl st)) (tbl (snd (process_upload fault now py_int data st))))) \<and>
   ((\<forall>i u n. fst (process_upload fault now py_int data st) \<noteq> Success i u n) \<longrightarrow>
      tbl (snd (process_upload fault now py_int data st)) = tbl st) \<and>
   list_all (\<lambda>m. m_delete_status_id m = 0)
     (drop (length (tbl st)) (tbl (snd (process_upload fault now py_int data st)))) \<and>
   list_all2 (\<lambda>old new. new =
       (if (\<exists>c. fst (main fault now ASSET_IDS column st) = Inr c) \<and>
           list_ex (matches old) (expand_per_asset ASSET_IDS (load_excel column))
        then old\<lparr>m_delete_status_id := 0, m_updated_at := now\<rparr> else old))
     (tbl st)
     (take (length (tbl st)) (tbl (snd (main fault now ASSET_IDS column st)))) \<and>
   list_all (\<lambda>m. m_delete_status_id m = 0)
     (drop (length (tbl st)) (tbl (snd (main fault now ASSET_IDS column st))))"
proof -
  have zero: "list_all (\<lambda>t. t_delete_status_id t = 0) (expand names ids)" for names ids
    by (simp add: list_all_iff status_expand)
  have batch_zero: "list_all (\<lambda>t. t_delete_status_id t = 0) (expand_per_asset ids names)"
    for names ids
    by (simp add: list_all_iff set_expand_per_asset status_expand)
  have web1: "list_all2 (\<lambda>old new. new =
          (if (\<exists>i u n. fst (process_upload fault now py_int data st) = Success i u n) \<and>
              list_ex (matches old) (expand (clean_reason_names (reason_names req)) ids)
           then old\<lparr>m_delete_status_id := 0, m_updated_at := now\<rparr> else old))
        (tbl st)
        (take (length (tbl st)) (tbl (snd (process_upload fault now py_int data st))))"
    if "data = Some req" "convert_ids py_int (asset_ids req) = Some ids"
    using that merge_prior_rows [of "expand (clean_reason_names (reason_names req)) ids"
        "tbl st" now, OF zero]
    by (simp add: process_upload_unfold list_all2_map_fun list_all2_same)
  have web2: "tbl (snd (process_upload fault now py_int data st)) = tbl st"
    if "\<forall>i u n. fst (process_upload fault now py_int data st) \<noteq> Success i u n"
  proof (cases data)
    case None
    then show ?thesis by (simp add: process_upload_def)
  next
    case (Some r)
    with that show ?thesis
      by (auto simp: process_upload_unfold split: option.splits if_splits)
  qed
  have web3: "list_all (\<lambda>m. m_delete_status_id m = 0)
     (drop (length (tbl st)) (tbl (snd (process_upload fault now py_int data st))))"
  proof (cases data)
    case None
    then show ?thesis by (simp add: process_upload_def)
  next
    case (Some r)
    show ?thesis
    proof (cases "convert_ids py_int (asset_ids r)")
      case None
      with Some show ?thesis by (simp add: process_upload_unfold)
    next
      case (Some ids')
      with \<open>data = Some r\<close> show ?thesis
        using merge_frame [of "expand (clean_reason_names (reason_names r)) ids'" now "tbl st",
            OF zero]
        by (simp add: process_upload_unfold)
    qed
  qed
  have batch1: "list_all2 (\<lambda>old new. new =
       (if (\<exists>c. fst (main fault now ASSET_IDS column st) = Inr c) \<and>
           list_ex (matches old) (expand_per_asset ASSET_IDS (load_excel column))
        then old\<lparr>m_delete_status_id := 0, m_updated_at := now\<rparr> else old))
     (tbl st)
     (take (length (tbl st)) (tbl (snd (main fault now ASSET_IDS column st))))"
    using merge_prior_rows [of "expand_per_asset ASSET_IDS (load_excel column)" "tbl st" now,
        OF batch_zero]
    by (simp add: main_def upsert_data_unfold list_all2_map_fun list_all2_same)
  have batch2: "list_all (\<lambda>m. m_delete_status_id m = 0)
     (drop (length (tbl st)) (tbl (snd (main fault now ASSET_IDS column st))))"
    using merge_frame [of "expand_per_asset ASSET_IDS (load_excel column)" now "tbl st",
        OF batch_zero]
    by (simp add: main_def upsert_data_unfold)
  from web1 web2 web3 batch1 batch2 show ?thesis by blast
qed

text \<open>
  A row with status 1 whose pair is a candidate is refreshed; a row with another name and
  a row with another asset, both with status 1, are left alone; the missing pair is
  inserted.
\<close>

theorem writes_within_frame_witness:
  "process_upload (\<lambda>k. False) 9 Some
     (Some \<lparr>reason_names = [''Jam''], asset_ids = [10, 20]\<rparr>)
     \<lparr>tbl = [\<lparr>m_name = ''Jam'', m_asset_id = 10, m_delete_status_id = 1,
              m_created_at = 3, m_updated_at = 4\<rparr>,
             \<lparr>m_name = ''Oil'', m_asset_id = 10, m_delete_status_id = 1,
              m_created_at = 3, m_updated_at = 4\<rparr>,
             \<lparr>m_name = ''Jam'', m_asset_id = 30, m_delete_status_id = 1,
              m_created_at = 3, m_updated_at = 4\<rparr>], invocations = 0\<rparr> =
   (Success 1 2 2,
    \<lparr>tbl = [\<lparr>m_name = ''Jam'', m_asset_id = 10, m_delete_status_id = 0,
              m_created_at = 3, m_updated_at = 9\<rparr>,
             \<lparr>m_name = ''Oil'', m_asset_id = 10, m_delete_status_id = 1,
              m_created_at = 3, m_updated_at = 4\<rparr>,
             \<lparr>m_name = ''Jam'', m_asset_id = 30, m_delete_status_id = 1,
              m_created_at = 3, m_updated_at = 4\<rparr>,
             \<lparr>m_name = ''Jam'', m_asset_id = 20, m_delete_status_id = 0,
              m_created_at = 9, m_updated_at = 9\<rparr>], invocations = 1\<rparr>)"
  using writes_within_frame [of "Some \<lparr>reason_names = [''Jam''], asset_ids = [10, 20]\<rparr>"
      "\<lparr>reason_names = [''Jam''], asset_ids = [10, 20]\<rparr>" Some "[10, 20]" "\<lambda>k. False" 9
      "\<lparr>tbl = [\<lparr>m_name = ''Jam'', m_asset_id = 10, m_delete_status_id = 1,
              m_created_at = 3, m_updated_at = 4\<rparr>,
             \<lparr>m_name = ''Oil'', m_asset_id = 10, m_delete_status_id = 1,
              m_created_at = 3, m_updated_at = 4\<rparr>,
             \<lparr>m_name = ''Jam'', m_asset_id = 30, m_delete_status_id = 1,
              m_created_at = 3, m_updated_at = 4\<rparr>], invocations = 0\<rparr>" "[]" "[]"]
  by (simp add: run_defs)

subsection \<open>Calling twice\<close>

text \<open>
  C5 claims, for every input, that a second call with the same input right after a
  successful first one returns \<open>inserted = 0\<close> and \<open>updated = |candidates|\<close>. In the
  web handler a repeated asset identifier breaks it: with the asset identifiers
  \<open>[10, 10, 20, 20]\<close> for reason \<open>a\<close>, on a table that holds the pair \<open>(a, 10)\<close>
  once (and so has at most one row per pair), the first call succeeds and inserts the pair
  \<open>(a, 20)\<close> twice, and the second call answers \<open>inserted = 0\<close>, \<open>updated = 3\<close>,
  \<open>total_processed = 4\<close>, where the distinct labels times the distinct identifiers are
  two candidates.
\<close>

theorem second_call_with_repeated_ids:
  "process_upload (\<lambda>k. False) 1 Some
     (Some \<lparr>reason_names = [''a''], asset_ids = [10, 10, 20, 20]\<rparr>)
     \<lparr>tbl = [\<lparr>m_name = ''a'', m_asset_id = 10, m_delete_status_id = 0,
              m_created_at = 0, m_updated_at = 0\<rparr>], invocations = 0\<rparr> =
   (Success 2 3 4,
    \<lparr>tbl = [\<lparr>m_name = ''a'', m_asset_id = 10, m_delete_status_id = 0,
              m_created_at = 0, m_updated_at = 1\<rparr>,
             \<lparr>m_name = ''a'', m_asset_id = 20, m_delete_status_id = 0,
              m_created_at = 1, m_updated_at = 1\<rparr>,
             \<lparr>m_name = ''a'', m_asset_id = 20, m_delete_status_id = 0,
              m_created_at = 1, m_updated_at = 1\<rparr>], invocations = 1\<rparr>) \<and>
   fst (process_upload (\<lambda>k. False) 2 Some
     (Some \<lparr>reason_names = [''a''], asset_ids = [10, 10, 20, 20]\<rparr>)
     \<lparr>tbl = [\<lparr>m_name = ''a'', m_asset_id = 10, m_delete_status_id = 0,
              m_created_at = 0, m_updated_at = 1\<rparr>,
             \<lparr>m_name = ''a'', m_asset_id = 20, m_delete_status_id = 0,
              m_created_at = 1, m_updated_at = 1\<rparr>,
             \<lparr>m_name = ''a'', m_asset_id = 20, m_delete_status_id = 0,
              m_created_at = 1, m_updated_at = 1\<rparr>], invocations = 1\<rparr>) = Success 0 3 4 \<and>
   unique_pairs [\<lparr>m_name = ''a'', m_asset_id = 10, m_delete_status_id = 0,
              m_created_at = 0, m_updated_at = 0\<rparr>] \<and>
   card (set (clean_reason_names [''a''])) * card (set [10, 10, 20, 20 :: int]) = 2"
  by (simp add: run_defs unique_pairs_def m_key_def)

text \<open>
  X4: in the web handler, when the table holds at most one row per pair before the first
  call and the asset identifiers of the request are pairwise distinct, a second call with
  the same request, right after a successful first call and itself free of storage faults,
  answers \<open>inserted = 0\<close> and \<open>updated = total_processed = |candidates|\<close>, and the
  table holds the same pairs, row by row, as after the first call.
\<close>

theorem second_call_refreshes_only:
  assumes "unique_pairs (tbl st)"
    and "convert_ids py_int (asset_ids req) = Some ids" and "distinct ids"
    and "process_upload fault now py_int (Some req) st = (Success i u n, st1)"
  shows "fst (process_upload (\<lambda>k. False) now' py_int (Some req) st1) = Success 0 n n \<and>
         n = card (set (expand (clean_reason_names (reason_names req)) ids)) \<and>
         map m_key (tbl (snd (process_upload (\<lambda>k. False) now' py_int (Some req) st1))) =
           map m_key (tbl st1)"
proof -
  let ?records = "expand (clean_reason_names (reason_names req)) ids"
  let ?tab1 = "fst (update_existing now ?records (fst (insert_new now ?records (tbl st))))"
  from assms(2,4) have valid: "reason_names req \<noteq> []" "asset_ids req \<noteq> []"
      "clean_reason_names (reason_names req) \<noteq> []"
    and n: "n = length ?records" and st1: "tbl st1 = ?tab1"
    by (auto simp: process_upload_unfold split: if_splits)
  have dk: "distinct (map t_key ?records)"
    using distinct_clean_reason_names assms(3) by (rule distinct_keys_expand)
  then have "distinct ?records" by (simp add: distinct_map)
  then have card: "card (set ?records) = length ?records" by (rule distinct_card)
  have inv1: "unique_pairs (tbl st1)"
    unfolding st1 using assms(1) dk by (rule unique_pairs_merge)
  have cover: "set (map t_key ?records) \<subseteq> set (map m_key (tbl st1))"
    unfolding st1 by (rule merge_covers_candidates)
  note second = merge_when_present [OF inv1 dk cover, of now']
  from valid assms(2) second n card show ?thesis
    by (simp add: process_upload_unfold)
qed

theorem second_call_refreshes_only_witness:
  "process_upload (\<lambda>k. False) 2 Some
     (Some \<lparr>reason_names = ['' Jam '', ''jam''], asset_ids = [10, 20]\<rparr>)
     \<lparr>tbl = [\<lparr>m_name = ''Jam'', m_asset_id = 10, m_delete_status_id = 0,
              m_created_at = 1, m_updated_at = 1\<rparr>,
             \<lparr>m_name = ''Jam'', m_asset_id = 20, m_delete_status_id = 0,
              m_created_at = 1, m_updated_at = 1\<rparr>,
             \<lparr>m_name = ''jam'', m_asset_id = 10, m_delete_status_id = 0,
              m_created_at = 1, m_updated_at = 1\<rparr>,
             \<lparr>m_name = ''jam'', m_asset_id = 20, m_delete_status_id = 0,
              m_created_at = 1, m_updated_at = 1\<rparr>], invocations = 1\<rparr> =
   (Success 0 4 4,
    \<lparr>tbl = [\<lparr>m_name = ''Jam'', m_asset_id = 10, m_delete_status_id = 0,
              m_created_at = 1, m_updated_at = 2\<rparr>,
             \<lparr>m_name = ''Jam'', m_asset_id = 20, m_delete_status_id = 0,
              m_created_at = 1, m_updated_at = 2\<rparr>,
             \<lparr>m_name = ''jam'', m_asset_id = 10, m_delete_status_id = 0,
              m_created_at = 1, m_updated_at = 2\<rparr>,
             \<lparr>m_name = ''jam'', m_asset_id = 20, m_delete_status_id = 0,
              m_created_at = 1, m_updated_at = 2\<rparr>], invocations = 2\<rparr>)"
  using second_call_refreshes_only [of "\<lparr>tbl = [], invocations = 0\<rparr>" Some
      "\<lparr>reason_names = ['' Jam '', ''jam''], asset_ids = [10, 20]\<rparr>" "[10, 20]"
      "\<lambda>k. False" 1 4 4 4
      "\<lparr>tbl = [\<lparr>m_name = ''Jam'', m_asset_id = 10, m_delete_status_id = 0,
              m_created_at = 1, m_updated_at = 1\<rparr>,
             \<lparr>m_name = ''Jam'', m_asset_id = 20, m_delete_status_id = 0,
              m_created_at = 1, m_updated_at = 1\<rparr>,
             \<lparr>m_name = ''jam'', m_asset_id = 10, m_delete_status_id = 0,
              m_created_at = 1, m_updated_at = 1\<rparr>,
             \<lparr>m_name = ''jam'', m_asset_id = 20, m_delete_status_id = 0,
              m_created_at = 1, m_updated_at = 1\<rparr>], invocations = 1\<rparr>" 2]
  by (simp add: run_defs unique_pairs_def)

text \<open>
  X5: the importer, which stages each pair once, needs no condition on the asset
  identifiers: on a table with at most one row per pair, a second run on the same column
  and the same \<open>ASSET_IDS\<close>, right after a successful first run and itself free of
  storage faults, logs \<open>inserted = 0\<close> and \<open>updated = |candidates|\<close>, the distinct
  labels times the distinct asset identifiers, and the table holds the same pairs, row by
  row, as after the first run.
\<close>

theorem importer_second_run_refreshes_only:
  assumes "unique_pairs (tbl st)"
    and "main fault now ASSET_IDS column st = (Inr (i, u), st1)"
  shows "fst (main (\<lambda>k. False) now' ASSET_IDS column st1) =
           Inr (0, card (set (load_excel column)) * card (set ASSET_IDS)) \<and>
         length (expand_per_asset ASSET_IDS (load_excel column)) =
           card (set (load_excel column)) * card (set ASSET_IDS) \<and>
         map m_key (tbl (snd (main (\<lambda>k. False) now' ASSET_IDS column st1))) =
           map m_key (tbl st1)"
proof -
  let ?records = "expand_per_asset ASSET_IDS (load_excel column)"
  let ?tab1 = "fst (update_existing now ?records (fst (insert_new now ?records (tbl st))))"
  from assms(2) have st1: "tbl st1 = ?tab1"
    by (auto simp: main_def upsert_data_unfold split: if_splits)
  have dk: "distinct (map t_key ?records)"
    by (simp only: expand_per_asset_def distinct_drop_duplicates)
  have "set (map t_key ?records) = set (load_excel column) \<times> set ASSET_IDS"
    by (simp only: expand_per_asset_def keys_drop_duplicates keys_expand set_product)
  then have "card (set (map t_key ?records)) = card (set (load_excel column)) * card (set ASSET_IDS)"
    by (simp only: card_cartesian_product)
  moreover have "card (set (map t_key ?records)) = length (map t_key ?records)"
    using dk by (rule distinct_card)
  ultimately have len: "length ?records = card (set (load_excel column)) * card (set ASSET_IDS)"
    by simp
  have inv1: "unique_pairs (tbl st1)"
    unfolding st1 using assms(1) dk by (rule unique_pairs_merge)
  have cover: "set (map t_key ?records) \<subseteq> set (map m_key (tbl st1))"
    unfolding st1 by (rule merge_covers_candidates)
  note second = merge_when_present [OF inv1 dk cover, of now']
  from second len show ?thesis
    by (simp add: main_def upsert_data_unfold)
qed

theorem importer_second_run_refreshes_only_witness:
  "main (\<lambda>k. False) 2 [10, 10, 20] [Text ''a'', Text '' a'']
     \<lparr>tbl = [\<lparr>m_name = ''a'', m_asset_id = 10, m_delete_status_id = 0,
              m_created_at = 1, m_updated_at = 1\<rparr>,
             \<lparr>m_name = ''a'', m_asset_id = 20, m_delete_status_id = 0,
              m_created_at = 1, m_updated_at = 1\<rparr>], invocations = 1\<rparr> =
   (Inr (0, 2),
    \<lparr>tbl = [\<lparr>m_name = ''a'', m_asset_id = 10, m_delete_status_id = 0,
              m_created_at = 1, m_updated_at = 2\<rparr>,
             \<lparr>m_name = ''a'', m_asset_id = 20, m_delete_status_id = 0,
              m_created_at = 1, m_updated_at = 2\<rparr>], invocations = 2\<rparr>)"
  using importer_second_run_refreshes_only [of "\<lparr>tbl = [], invocations = 0\<rparr>" "\<lambda>k. False" 1
      "[10, 10, 20]" "[Text ''a'', Text '' a'']" 2 2
      "\<lparr>tbl = [\<lparr>m_name = ''a'', m_asset_id = 10, m_delete_status_id = 0,
              m_created_at = 1, m_updated_at = 1\<rparr>,
             \<lparr>m_name = ''a'', m_asset_id = 20, m_delete_status_id = 0,
              m_created_at = 1, m_updated_at = 1\<rparr>], invocations = 1\<rparr>" 2]
  by (simp add: main_def upsert_data_def expand_per_asset_def load_excel_def run_defs
      unique_pairs_def)

end
